theory Spec2Isabelle
  imports Main "HOL-Library.Word"
begin

section \<open>The chat widget of ChatWidget.jsx as a state machine\<close>

text \<open>
  The component keeps four pieces of React state (\<open>isOpen\<close>, \<open>messages\<close>,
  \<open>inputValue\<close>, \<open>isLoading\<close>) and talks to the network through \<open>fetch\<close>.
  The model is one record holding that state together with the two things the
  environment has to remember: the list of requests handed to \<open>fetch\<close> so far, and
  the activations of \<open>handleSendMessage\<close> that are suspended at \<open>await fetch(...)\<close>.
  State setters are applied in the order in which the code calls them. React
  renders after the setters of a handler; an error thrown while it computes the new
  state or renders it is caught by nobody (\<open>App\<close> has no error boundary), and React
  then removes the whole tree.
\<close>

subsection \<open>JavaScript strings and \<open>String.prototype.trim\<close>\<close>

text \<open>
  A JavaScript string is a sequence of UTF-16 code units. \<open>js\<close> embeds an ASCII
  literal of the source.
\<close>

type_synonym code_unit = "16 word"
type_synonym jsstring = "code_unit list"

definition js :: "string \<Rightarrow> jsstring" where
  "js s = map of_char s"

text \<open>
  \<open>trim\<close> removes leading and trailing code units that are ECMAScript WhiteSpace
  (TAB, VT, FF, SP, NBSP, ZWNBSP and the Unicode space separators) or
  LineTerminator (LF, CR, LS, PS).
\<close>

definition is_ws :: "code_unit \<Rightarrow> bool" where
  "is_ws c \<longleftrightarrow>
     c \<in> {0x9, 0xA, 0xB, 0xC, 0xD, 0x20, 0xA0, 0x1680,
          0x2028, 0x2029, 0x202F, 0x205F, 0x3000, 0xFEFF}
     \<or> (0x2000 \<le> c \<and> c \<le> 0x200A)"

definition trim :: "jsstring \<Rightarrow> jsstring" where
  "trim s = rev (dropWhile is_ws (rev (dropWhile is_ws s)))"

subsection \<open>Values, turns, requests\<close>

text \<open>
  What \<open>response.json()\<close> can resolve with. The payload of a number is never
  inspected by the widget, so the type of numbers is left unspecified. \<open>JObj\<close>
  lists the own properties of the parsed object, one entry per key.
\<close>

typedecl js_number

datatype json =
    JNull
  | JBool bool
  | JNum js_number
  | JStr jsstring
  | JArr "json list"
  | JObj "(jsstring \<times> json) list"

datatype jsval = Undefined | Value json

datatype sender = User | Bot

record turn =
  "text" :: jsval
  sender :: sender

datatype request =
    Post jsstring jsval  \<comment> \<open>url, and the \<open>question\<close> field of the JSON body\<close>
  | Get jsstring

definition chat_url :: jsstring where
  "chat_url = js ''http://127.0.0.1:8000/chat''"

definition health_url :: jsstring where
  "health_url = js ''https://your-app-name.onrender.com/health''"

definition greeting_text :: jsstring where
  "greeting_text = js ''Hello! Ask me anything about SMIK.''"

definition fallback_text :: jsstring where
  "fallback_text = js ''I'm waking up! Please try again in 10s.''"

subsection \<open>What the network can answer\<close>

datatype js_error =
    FetchRejected    \<comment> \<open>\<open>fetch\<close> rejects: no response was obtained\<close>
  | JsonRejected     \<comment> \<open>\<open>response.json()\<close> rejects: the body is not JSON\<close>
  | TypeError        \<comment> \<open>property read on \<open>null\<close>\<close>

datatype body = NotJson | Parsed json

datatype fetch_outcome =
    Rejected
  | Responded nat body  \<comment> \<open>status code and body; \<open>fetch\<close> resolves for every status\<close>

fun await_fetch :: "fetch_outcome \<Rightarrow> js_error + body" where
  "await_fetch Rejected = Inl FetchRejected"
| "await_fetch (Responded status b) = Inr b"

fun response_json :: "body \<Rightarrow> js_error + json" where
  "response_json NotJson = Inl JsonRejected"
| "response_json (Parsed d) = Inr d"

text \<open>
  What can throw inside the \<open>try\<close> block once the request has been dispatched: the
  two awaits. The call of \<open>setMessages\<close> that follows them only hands a function to
  React and does not throw.
\<close>

definition try_block :: "fetch_outcome \<Rightarrow> js_error + json" where
  "try_block out =
     (case await_fetch out of
        Inl e \<Rightarrow> Inl e
      | Inr response \<Rightarrow> response_json response)"

text \<open>The property read \<open>data.answer\<close>.\<close>

fun get_answer :: "json \<Rightarrow> js_error + jsval" where
  "get_answer JNull = Inl TypeError"
| "get_answer (JObj props) =
     Inr (case map_of props (js ''answer'') of None \<Rightarrow> Undefined | Some v \<Rightarrow> Value v)"
| "get_answer d = Inr Undefined"

text \<open>
  The function \<open>(prev) => [...prev, { text: data.answer, sender: "bot" }]\<close> handed to
  \<open>setMessages\<close> in the success branch. React calls it, outside the \<open>try\<close> block, when
  it computes the next state; the property read happens then.
\<close>

definition add_answer :: "json \<Rightarrow> turn list \<Rightarrow> js_error + turn list" where
  "add_answer data prev =
     (case get_answer data of
        Inl e \<Rightarrow> Inl e
      | Inr answer \<Rightarrow> Inr (prev @ [\<lparr> text = answer, sender = Bot \<rparr>]))"

subsection \<open>The widget\<close>

record widget =
  isOpen :: bool
  messages :: "turn list"
  inputValue :: jsstring
  isLoading :: bool
  issued :: "request list"  \<comment> \<open>every call of \<open>fetch\<close> so far, oldest first\<close>
  pending :: "nat list"     \<comment> \<open>suspended activations of \<open>handleSendMessage\<close>, each
                                named by the position of its request in \<open>issued\<close>\<close>

definition init :: widget where
  "init = \<lparr> isOpen = False,
            messages = [\<lparr> text = Value (JStr greeting_text), sender = Bot \<rparr>],
            inputValue = [],
            isLoading = False,
            issued = [],
            pending = [] \<rparr>"

definition toggleChat :: "widget \<Rightarrow> widget" where
  "toggleChat s = s\<lparr> isOpen := \<not> isOpen s \<rparr>"

text \<open>
  \<open>handleSendMessage\<close> up to its first \<open>await\<close>: the guard, the three setters and the
  call of \<open>fetch\<close>.
\<close>

definition handleSendMessage :: "widget \<Rightarrow> widget" where
  "handleSendMessage s =
     (if trim (inputValue s) = [] then s
      else
        let userMessage = \<lparr> text = Value (JStr (inputValue s)), sender = User \<rparr> in
        s\<lparr> messages := messages s @ [userMessage],
           inputValue := [],
           isLoading := True,
           issued := issued s @ [Post chat_url (text userMessage)],
           pending := pending s @ [length (issued s)] \<rparr>)"

definition handleKeyPress :: "jsstring \<Rightarrow> widget \<Rightarrow> widget" where
  "handleKeyPress key s = (if key = js ''Enter'' then handleSendMessage s else s)"

subsection \<open>Rendering\<close>

text \<open>
  The open panel renders \<open>{msg.text}\<close> for every turn. Strings and numbers are shown,
  \<open>undefined\<close>, \<open>null\<close> and booleans show nothing, an array is rendered element by
  element, and a plain object is not a valid React child: rendering it throws.
\<close>

fun valid_child :: "json \<Rightarrow> bool" where
  "valid_child (JObj props) = False"
| "valid_child (JArr xs) = list_all valid_child xs"
| "valid_child d = True"

fun shows_text :: "jsval \<Rightarrow> bool" where
  "shows_text Undefined = True"
| "shows_text (Value d) = valid_child d"

definition renders :: "widget \<Rightarrow> bool" where
  "renders s = (if isOpen s then list_all (\<lambda>m. shows_text (text m)) (messages s) else True)"

text \<open>
  The page is either the mounted widget or, after an uncaught error, nothing: the
  state of the component is gone, and only the network side remains, the requests
  issued and the activations still suspended.
\<close>

datatype page =
    Mounted widget
  | Unmounted "request list" "nat list"

fun conversation :: "page \<Rightarrow> turn list option" where
  "conversation (Mounted s) = Some (messages s)"
| "conversation (Unmounted reqs susp) = None"

definition commit :: "widget \<Rightarrow> page" where
  "commit s = (if renders s then Mounted s else Unmounted (issued s) (pending s))"

text \<open>React renders again only when a setter has changed the state.\<close>

definition rerender :: "widget \<Rightarrow> widget \<Rightarrow> page" where
  "rerender s s' = (if s' = s then Mounted s else commit s')"

text \<open>
  The rest of \<open>handleSendMessage\<close>, run when the awaited request settles. In the
  success branch the new turn list is computed by \<open>add_answer\<close> at the next render;
  if that throws, the tree is removed. In the \<open>catch\<close> branch the fallback turn is
  added and the health request is sent. \<open>finally\<close> clears the loading flag.
\<close>

definition resume :: "fetch_outcome \<Rightarrow> widget \<Rightarrow> page" where
  "resume out s =
     (case try_block out of
        Inr data \<Rightarrow>
          (case add_answer data (messages s) of
             Inl e \<Rightarrow> Unmounted (issued s) (pending s)
           | Inr turns \<Rightarrow> commit (s\<lparr> messages := turns, isLoading := False \<rparr>))
      | Inl error \<Rightarrow>
          commit (s\<lparr> messages := messages s
                         @ [\<lparr> text = Value (JStr fallback_text), sender = Bot \<rparr>],
                     isLoading := False,
                     issued := issued s @ [Get health_url] \<rparr>))"

text \<open>
  The request named \<open>rid\<close> settles with \<open>out\<close>. Only a request still in flight can
  settle.
\<close>

definition resolve :: "nat \<Rightarrow> fetch_outcome \<Rightarrow> widget \<Rightarrow> page" where
  "resolve rid out s =
     (if rid \<in> set (pending s)
      then resume out (s\<lparr> pending := remove1 rid (pending s) \<rparr>)
      else Mounted s)"

text \<open>
  A request that settles after the tree has been removed: the setters do nothing any
  more, and the \<open>catch\<close> branch still sends its health request.
\<close>

definition resolve_unmounted :: "nat \<Rightarrow> fetch_outcome \<Rightarrow> request list \<Rightarrow> nat list \<Rightarrow> page" where
  "resolve_unmounted rid out reqs susp =
     (if rid \<in> set susp
      then (case try_block out of
              Inr data \<Rightarrow> Unmounted reqs (remove1 rid susp)
            | Inl error \<Rightarrow> Unmounted (reqs @ [Get health_url]) (remove1 rid susp))
      else Unmounted reqs susp)"

text \<open>
  The events of the page. The toggle button is always rendered; the input field and
  the Send button are rendered only while the panel is open. Nothing is attached to
  the promise of the health request, so its settling changes nothing.
\<close>

datatype event =
    Toggle
  | Change jsstring
  | Send
  | KeyPress jsstring
  | Settle nat fetch_outcome
  | ProbeSettle fetch_outcome

fun step :: "page \<Rightarrow> event \<Rightarrow> page" where
  "step (Mounted s) Toggle = rerender s (toggleChat s)"
| "step (Mounted s) (Change v) =
     (if isOpen s then rerender s (s\<lparr> inputValue := v \<rparr>) else Mounted s)"
| "step (Mounted s) Send =
     (if isOpen s then rerender s (handleSendMessage s) else Mounted s)"
| "step (Mounted s) (KeyPress key) =
     (if isOpen s then rerender s (handleKeyPress key s) else Mounted s)"
| "step (Mounted s) (Settle rid out) = resolve rid out s"
| "step (Mounted s) (ProbeSettle out) = Mounted s"
| "step (Unmounted reqs susp) (Settle rid out) = resolve_unmounted rid out reqs susp"
| "step (Unmounted reqs susp) e = Unmounted reqs susp"

definition run :: "page \<Rightarrow> event list \<Rightarrow> page" where
  "run p evs = foldl step p evs"

text \<open>
  Every suspended activation is named by a request that has been issued. This holds
  in every state reachable from \<open>init\<close> and makes the name of a new request fresh.
\<close>

definition ids_issued :: "widget \<Rightarrow> bool" where
  "ids_issued s \<longleftrightarrow> (\<forall>i \<in> set (pending s). i < length (issued s))"

section \<open>Basic facts\<close>

lemma trim_blank: "list_all is_ws d \<Longrightarrow> trim d = []"
  by (auto simp: trim_def list_all_iff dest: set_dropWhileD)

lemma handleSendMessage_blank: "trim (inputValue s) = [] \<Longrightarrow> handleSendMessage s = s"
  by (simp add: handleSendMessage_def)

lemma handleSendMessage_messages:
  "trim (inputValue s) \<noteq> [] \<Longrightarrow>
   messages (handleSendMessage s) =
     messages s @ [\<lparr> text = Value (JStr (inputValue s)), sender = User \<rparr>]"
  by (simp add: handleSendMessage_def Let_def)

lemma handleSendMessage_issued:
  "trim (inputValue s) \<noteq> [] \<Longrightarrow>
   issued (handleSendMessage s) = issued s @ [Post chat_url (Value (JStr (inputValue s)))]"
  by (simp add: handleSendMessage_def Let_def)

lemma handleSendMessage_pending:
  "trim (inputValue s) \<noteq> [] \<Longrightarrow>
   pending (handleSendMessage s) = pending s @ [length (issued s)]"
  by (simp add: handleSendMessage_def Let_def)

lemma handleSendMessage_flags:
  "trim (inputValue s) \<noteq> [] \<Longrightarrow>
   inputValue (handleSendMessage s) = [] \<and> isLoading (handleSendMessage s)
   \<and> isOpen (handleSendMessage s) = isOpen s"
  by (simp add: handleSendMessage_def Let_def)

lemma trim_examples:
  "trim (js ''hi'') = js ''hi''" "trim (js '' hi'') = js ''hi''" "trim (js ''   '') = []"
  "trim (js ''a'') = js ''a''" "trim (js ''b'') = js ''b''"
  "trim (js ''Who is the CEO?'') = js ''Who is the CEO?''"
  by (simp_all add: trim_def js_def is_ws_def)

lemma js_nonempty:
  "js ''hi'' \<noteq> []" "js '' hi'' \<noteq> []" "js ''a'' \<noteq> []" "js ''b'' \<noteq> []"
  "js ''Who is the CEO?'' \<noteq> []" "js '' hi'' \<noteq> js ''hi''"
  by (simp_all add: js_def)

lemma trim_nonblank:
  "trim (js ''hi'') \<noteq> []" "trim (js '' hi'') \<noteq> []" "trim (js ''a'') \<noteq> []"
  "trim (js ''b'') \<noteq> []" "trim (js ''Who is the CEO?'') \<noteq> []"
  by (simp_all add: trim_examples js_nonempty)


lemma run_Cons: "run p (e # evs) = run (step p e) evs"
  by (simp add: run_def)

lemma run_Nil: "run p [] = p"
  by (simp add: run_def)

lemma run_append: "run p (evs @ evs') = run (run p evs) evs'"
  by (simp add: run_def)

lemma run_snoc: "run p (evs @ [e]) = step (run p evs) e"
  by (simp add: run_def)

subsection \<open>Rendering\<close>

lemma commit_Mounted: "commit s = Mounted s' \<longleftrightarrow> renders s \<and> s' = s"
  by (auto simp: commit_def)

lemma commit_renders: "renders s \<Longrightarrow> commit s = Mounted s"
  by (simp add: commit_def)

lemma rerender_renders: "renders s' \<Longrightarrow> rerender s s' = Mounted s'"
  by (auto simp: rerender_def commit_def)

lemma rerender_Mounted: "rerender s s' = Mounted t \<Longrightarrow> t = s'"
  by (auto simp: rerender_def commit_def split: if_splits)

lemma rerender_Mounted_renders: "renders s \<Longrightarrow> rerender s s' = Mounted t \<Longrightarrow> renders t"
  by (auto simp: rerender_def commit_def split: if_splits)

lemma renders_closed: "\<not> isOpen s \<Longrightarrow> renders s"
  by (simp add: renders_def)

lemma renders_init: "renders init"
  by (simp add: renders_def init_def)

lemma renders_handleSendMessage: "renders s \<Longrightarrow> renders (handleSendMessage s)"
  by (cases "trim (inputValue s) = []")
     (simp_all add: handleSendMessage_blank,
      simp add: renders_def handleSendMessage_messages handleSendMessage_flags)

subsection \<open>Settling a request\<close>

lemma try_block_cases:
  "try_block Rejected = Inl FetchRejected"
  "try_block (Responded st NotJson) = Inl JsonRejected"
  "try_block (Responded st (Parsed d)) = Inr d"
  by (simp_all add: try_block_def)

lemma resume_Mounted:
  assumes "resume out s = Mounted t"
  shows "\<exists>b. sender b = Bot
           \<and> messages t = messages s @ [b] \<and> isOpen t = isOpen s
           \<and> inputValue t = inputValue s \<and> pending t = pending s
           \<and> (\<exists>rs. issued t = issued s @ rs) \<and> renders t"
proof (cases "try_block out")
  case (Inl e)
  with assms show ?thesis
    by (auto simp: resume_def commit_Mounted)
next
  case (Inr data)
  with assms show ?thesis
    by (cases "get_answer data") (auto simp: resume_def add_answer_def commit_Mounted)
qed

lemma resolve_messages:
  assumes "rid \<in> set (pending s)" and "resolve rid out s = Mounted t"
  shows "\<exists>b. sender b = Bot \<and> messages t = messages s @ [b]"
  using resume_Mounted [of out "s\<lparr> pending := remove1 rid (pending s) \<rparr>" t] assms
  by (auto simp: resolve_def)


lemma resolve_answer:
  assumes "rid \<in> set (pending s)" and "renders s" and "try_block out = Inr data"
    and "get_answer data = Inr a" and "shows_text a"
  shows "resolve rid out s
         = Mounted (s\<lparr> messages := messages s @ [\<lparr> text = a, sender = Bot \<rparr>],
                       isLoading := False,
                       pending := remove1 rid (pending s) \<rparr>)"
proof -
  let ?t = "s\<lparr> pending := remove1 rid (pending s),
                messages := messages s @ [\<lparr> text = a, sender = Bot \<rparr>],
                isLoading := False \<rparr>"
  have "renders ?t"
    using assms(2,5) by (simp add: renders_def)
  then have "commit ?t = Mounted ?t"
    by (rule commit_renders)
  with assms(1,3,4) show ?thesis
    by (simp add: resolve_def resume_def add_answer_def)
qed

lemma resolve_answer_closed:
  assumes "rid \<in> set (pending s)" and "\<not> isOpen s" and "try_block out = Inr data"
    and "get_answer data = Inr a"
  shows "resolve rid out s
         = Mounted (s\<lparr> messages := messages s @ [\<lparr> text = a, sender = Bot \<rparr>],
                       isLoading := False,
                       pending := remove1 rid (pending s) \<rparr>)"
  using assms by (simp add: resolve_def resume_def add_answer_def commit_def renders_def)

lemma resolve_unrenderable_open:
  assumes "rid \<in> set (pending s)" and "isOpen s" and "try_block out = Inr data"
    and "get_answer data = Inr a" and "\<not> shows_text a"
  shows "resolve rid out s = Unmounted (issued s) (remove1 rid (pending s))"
  using assms by (simp add: resolve_def resume_def add_answer_def commit_def renders_def)

lemma resolve_Mounted:
  assumes "resolve rid out s = Mounted t"
  shows "(\<exists>ys. messages t = messages s @ ys) \<and> (renders s \<longrightarrow> renders t)
         \<and> (ids_issued s \<longrightarrow> ids_issued t)"
proof (cases "rid \<in> set (pending s)")
  case False
  with assms show ?thesis by (simp add: resolve_def)
next
  case True
  let ?s = "s\<lparr> pending := remove1 rid (pending s) \<rparr>"
  from assms True have r: "resume out ?s = Mounted t"
    by (simp add: resolve_def)
  from resume_Mounted [OF r] obtain b rs where
    t: "messages t = messages s @ [b]" "pending t = remove1 rid (pending s)"
       "issued t = issued s @ rs" "renders t"
    by auto
  have "ids_issued s \<longrightarrow> ids_issued t"
    using t(2,3)
    by (auto simp: ids_issued_def trans_less_add1 dest: set_remove1_subset [THEN subsetD])
  with t show ?thesis by simp
qed

subsection \<open>Steps and runs\<close>

lemma step_Mounted:
  assumes "step (Mounted s) e = Mounted t"
  shows "(\<exists>ys. messages t = messages s @ ys) \<and> (renders s \<longrightarrow> renders t)
         \<and> (ids_issued s \<longrightarrow> ids_issued t)"
proof (cases e)
  case Toggle
  with assms have "t = toggleChat s" "renders s \<longrightarrow> renders t"
    by (auto dest: rerender_Mounted rerender_Mounted_renders)
  then show ?thesis
    by (simp add: toggleChat_def ids_issued_def)
next
  case (Change v)
  with assms have "t = s \<or> t = s\<lparr> inputValue := v \<rparr>" "renders s \<longrightarrow> renders t"
    by (auto dest: rerender_Mounted rerender_Mounted_renders split: if_splits)
  then show ?thesis
    by (auto simp: ids_issued_def)
next
  case Send
  with assms have t: "t = s \<or> t = handleSendMessage s"
    by (auto dest: rerender_Mounted split: if_splits)
  have "\<exists>ys. messages (handleSendMessage s) = messages s @ ys"
    by (cases "trim (inputValue s) = []")
       (simp_all add: handleSendMessage_blank handleSendMessage_messages)
  moreover have "ids_issued s \<longrightarrow> ids_issued (handleSendMessage s)"
    by (cases "trim (inputValue s) = []")
       (auto simp: ids_issued_def handleSendMessage_blank handleSendMessage_issued
          handleSendMessage_pending less_Suc_eq)
  ultimately show ?thesis
    using t renders_handleSendMessage [of s] by auto
next
  case (KeyPress key)
  with assms have t: "t = s \<or> t = handleSendMessage s"
    by (auto simp: handleKeyPress_def dest: rerender_Mounted split: if_splits)
  have "\<exists>ys. messages (handleSendMessage s) = messages s @ ys"
    by (cases "trim (inputValue s) = []")
       (simp_all add: handleSendMessage_blank handleSendMessage_messages)
  moreover have "ids_issued s \<longrightarrow> ids_issued (handleSendMessage s)"
    by (cases "trim (inputValue s) = []")
       (auto simp: ids_issued_def handleSendMessage_blank handleSendMessage_issued
          handleSendMessage_pending less_Suc_eq)
  ultimately show ?thesis
    using t renders_handleSendMessage [of s] by auto
next
  case (Settle rid out)
  with assms show ?thesis
    using resolve_Mounted [of rid out s t] by simp
next
  case (ProbeSettle out)
  with assms show ?thesis by auto
qed

lemma step_Unmounted: "\<exists>reqs' susp'. step (Unmounted reqs susp) e = Unmounted reqs' susp'"
  by (cases e) (auto simp: resolve_unmounted_def split: sum.splits)

lemma run_Unmounted: "\<exists>reqs' susp'. run (Unmounted reqs susp) evs = Unmounted reqs' susp'"
proof (induction evs arbitrary: reqs susp)
  case Nil
  show ?case by (simp add: run_Nil)
next
  case (Cons e evs)
  obtain r u where "step (Unmounted reqs susp) e = Unmounted r u"
    using step_Unmounted by blast
  with Cons.IH [of r u] show ?case
    by (simp add: run_Cons)
qed

lemma run_Mounted_start:
  assumes "run p evs = Mounted t"
  shows "\<exists>s. p = Mounted s"
proof (cases p)
  case (Mounted s)
  then show ?thesis by simp
next
  case (Unmounted reqs susp)
  with run_Unmounted [of reqs susp evs] assms show ?thesis by auto
qed

lemma run_Mounted:
  assumes "run (Mounted s) evs = Mounted t"
  shows "(\<exists>ys. messages t = messages s @ ys) \<and> (renders s \<longrightarrow> renders t)
         \<and> (ids_issued s \<longrightarrow> ids_issued t)"
  using assms
proof (induction evs arbitrary: s)
  case Nil
  then show ?case by (simp add: run_Nil)
next
  case (Cons e evs)
  from Cons.prems have r: "run (step (Mounted s) e) evs = Mounted t"
    by (simp add: run_Cons)
  then obtain m where m: "step (Mounted s) e = Mounted m"
    using run_Mounted_start by blast
  from step_Mounted [OF m] Cons.IH [of m] r m show ?case
    by auto
qed

lemma ids_issued_init: "ids_issued init"
  by (simp add: ids_issued_def init_def)

lemma reachable_renders: "run (Mounted init) evs = Mounted s \<Longrightarrow> renders s"
  using run_Mounted [of init evs s] renders_init by simp

lemma fresh_request_id:
  "run (Mounted init) evs = Mounted s \<Longrightarrow> length (issued s) \<notin> set (pending s)"
  using run_Mounted [of init evs s] ids_issued_init by (auto simp: ids_issued_def)

lemma typed_open:
  "run (Mounted init) [Toggle, Change d] = Mounted (init\<lparr> isOpen := True, inputValue := d \<rparr>)"
  by (simp add: run_Cons run_Nil init_def toggleChat_def rerender_def commit_def renders_def)

lemma submitted_open:
  assumes "trim d \<noteq> []"
  shows "run (Mounted init) [Toggle, Change d, Send]
     = Mounted \<lparr> isOpen = True,
         messages = [\<lparr> text = Value (JStr greeting_text), sender = Bot \<rparr>,
                     \<lparr> text = Value (JStr d), sender = User \<rparr>],
         inputValue = [], isLoading = True,
         issued = [Post chat_url (Value (JStr d))], pending = [0] \<rparr>"
proof -
  have "run (Mounted init) ([Toggle, Change d] @ [Send])
          = step (Mounted (init\<lparr> isOpen := True, inputValue := d \<rparr>)) Send"
    unfolding run_snoc typed_open ..
  then show ?thesis
    using assms
    by (simp add: init_def handleSendMessage_def rerender_def commit_def renders_def)
qed

lemma awaiting_then_typed:
  assumes "trim d \<noteq> []"
  shows "run (Mounted init) [Toggle, Change d, Send, Change d']
     = Mounted \<lparr> isOpen = True,
         messages = [\<lparr> text = Value (JStr greeting_text), sender = Bot \<rparr>,
                     \<lparr> text = Value (JStr d), sender = User \<rparr>],
         inputValue = d', isLoading = True,
         issued = [Post chat_url (Value (JStr d))], pending = [0] \<rparr>"
proof -
  have "run (Mounted init) ([Toggle, Change d, Send] @ [Change d'])
          = step (run (Mounted init) [Toggle, Change d, Send]) (Change d')"
    by (rule run_snoc)
  then show ?thesis
    by (simp add: submitted_open [OF assms] rerender_def commit_def renders_def)
qed

lemma awaiting_then_closed:
  assumes "trim d \<noteq> []"
  shows "run (Mounted init) [Toggle, Change d, Send, Toggle]
     = Mounted \<lparr> isOpen = False,
         messages = [\<lparr> text = Value (JStr greeting_text), sender = Bot \<rparr>,
                     \<lparr> text = Value (JStr d), sender = User \<rparr>],
         inputValue = [], isLoading = True,
         issued = [Post chat_url (Value (JStr d))], pending = [0] \<rparr>"
proof -
  have "run (Mounted init) ([Toggle, Change d, Send] @ [Toggle])
          = step (run (Mounted init) [Toggle, Change d, Send]) Toggle"
    by (rule run_snoc)
  then show ?thesis
    by (simp add: submitted_open [OF assms] rerender_def commit_def renders_def toggleChat_def)
qed

section \<open>Claims\<close>




text \<open>
  C2, as the code has it. \<open>handleSendMessage\<close> does not look at the loading flag. A
  submit with a non-blank draft while a request is in flight appends a second user
  turn at once and dispatches a second request that overlaps the first; the loading
  flag stays set.
\<close>

theorem submit_while_awaiting:
  assumes "isLoading s" and "pending s \<noteq> []" and "trim (inputValue s) \<noteq> []"
  shows "messages (handleSendMessage s)
           = messages s @ [\<lparr> text = Value (JStr (inputValue s)), sender = User \<rparr>]
         \<and> issued (handleSendMessage s)
           = issued s @ [Post chat_url (Value (JStr (inputValue s)))]
         \<and> pending (handleSendMessage s) = pending s @ [length (issued s)]
         \<and> isLoading (handleSendMessage s)"
  using assms(3)
  by (simp add: handleSendMessage_messages handleSendMessage_issued
      handleSendMessage_pending handleSendMessage_flags)

theorem submit_while_awaiting_witness:
  "run (Mounted init) [Toggle, Change (js ''a''), Send, Change (js ''b'')]
     = Mounted \<lparr> isOpen = True,
         messages = [\<lparr> text = Value (JStr greeting_text), sender = Bot \<rparr>,
                     \<lparr> text = Value (JStr (js ''a'')), sender = User \<rparr>],
         inputValue = js ''b'', isLoading = True,
         issued = [Post chat_url (Value (JStr (js ''a'')))], pending = [0] \<rparr>
   \<and> messages (handleSendMessage
         \<lparr> isOpen = True,
           messages = [\<lparr> text = Value (JStr greeting_text), sender = Bot \<rparr>,
                       \<lparr> text = Value (JStr (js ''a'')), sender = User \<rparr>],
           inputValue = js ''b'', isLoading = True,
           issued = [Post chat_url (Value (JStr (js ''a'')))], pending = [0] \<rparr>)
       = [\<lparr> text = Value (JStr greeting_text), sender = Bot \<rparr>,
          \<lparr> text = Value (JStr (js ''a'')), sender = User \<rparr>,
          \<lparr> text = Value (JStr (js ''b'')), sender = User \<rparr>]
   \<and> pending (handleSendMessage
         \<lparr> isOpen = True,
           messages = [\<lparr> text = Value (JStr greeting_text), sender = Bot \<rparr>,
                       \<lparr> text = Value (JStr (js ''a'')), sender = User \<rparr>],
           inputValue = js ''b'', isLoading = True,
           issued = [Post chat_url (Value (JStr (js ''a'')))], pending = [0] \<rparr>)
       = [0, 1]"
proof -
  let ?s = "\<lparr> isOpen = True,
           messages = [\<lparr> text = Value (JStr greeting_text), sender = Bot \<rparr>,
                       \<lparr> text = Value (JStr (js ''a'')), sender = User \<rparr>],
           inputValue = js ''b'', isLoading = True,
           issued = [Post chat_url (Value (JStr (js ''a'')))], pending = [0] \<rparr>"
  have h1: "isLoading ?s" and h2: "pending ?s \<noteq> []" and h3: "trim (inputValue ?s) \<noteq> []"
    by (simp_all add: trim_nonblank)
  from submit_while_awaiting [OF h1 h2 h3] awaiting_then_typed [OF trim_nonblank(3), of "js ''b''"]
  show ?thesis
    by simp
qed

text \<open>
  C2 as stated fails: after a first submission, with its request still in flight and
  the loading flag set, a second submission appends a second user turn and leaves two
  requests in flight.
\<close>

theorem second_submit_counterexample:
  "run (Mounted init) [Toggle, Change (js ''a''), Send]
     = Mounted \<lparr> isOpen = True,
         messages = [\<lparr> text = Value (JStr greeting_text), sender = Bot \<rparr>,
                     \<lparr> text = Value (JStr (js ''a'')), sender = User \<rparr>],
         inputValue = [], isLoading = True,
         issued = [Post chat_url (Value (JStr (js ''a'')))], pending = [0] \<rparr>
   \<and> run (Mounted init) [Toggle, Change (js ''a''), Send, Change (js ''b''), Send]
     = Mounted \<lparr> isOpen = True,
         messages = [\<lparr> text = Value (JStr greeting_text), sender = Bot \<rparr>,
                     \<lparr> text = Value (JStr (js ''a'')), sender = User \<rparr>,
                     \<lparr> text = Value (JStr (js ''b'')), sender = User \<rparr>],
         inputValue = [], isLoading = True,
         issued = [Post chat_url (Value (JStr (js ''a''))),
                   Post chat_url (Value (JStr (js ''b'')))],
         pending = [0, 1] \<rparr>"
proof -
  have "run (Mounted init) ([Toggle, Change (js ''a''), Send, Change (js ''b'')] @ [Send])
          = step (run (Mounted init) [Toggle, Change (js ''a''), Send, Change (js ''b'')]) Send"
    by (rule run_snoc)
  then show ?thesis
    using trim_nonblank(4)
    by (simp add: awaiting_then_typed submitted_open trim_nonblank handleSendMessage_def
        rerender_def commit_def renders_def)
qed

text \<open>
  C3, as the code has it. \<open>trim\<close> is used only in the guard. For a draft that is not
  blank, the user turn carries the draft as typed, the \<open>question\<close> field of the request
  is that same text, and the draft is cleared in the same step.
\<close>

theorem submit_appends_draft_verbatim:
  assumes "trim (inputValue s) \<noteq> []"
  shows "messages (handleSendMessage s)
           = messages s @ [\<lparr> text = Value (JStr (inputValue s)), sender = User \<rparr>]
         \<and> issued (handleSendMessage s)
           = issued s @ [Post chat_url (Value (JStr (inputValue s)))]
         \<and> inputValue (handleSendMessage s) = []"
  using assms
  by (simp add: handleSendMessage_messages handleSendMessage_issued handleSendMessage_flags)

theorem submit_appends_draft_verbatim_witness:
  "run (Mounted init) [Toggle, Change (js '' hi'')]
     = Mounted (init\<lparr> isOpen := True, inputValue := js '' hi'' \<rparr>)
   \<and> trim (inputValue (init\<lparr> isOpen := True, inputValue := js '' hi'' \<rparr>)) \<noteq> []
   \<and> messages (handleSendMessage (init\<lparr> isOpen := True, inputValue := js '' hi'' \<rparr>))
       = [\<lparr> text = Value (JStr greeting_text), sender = Bot \<rparr>,
          \<lparr> text = Value (JStr (js '' hi'')), sender = User \<rparr>]
   \<and> issued (handleSendMessage (init\<lparr> isOpen := True, inputValue := js '' hi'' \<rparr>))
       = [Post chat_url (Value (JStr (js '' hi'')))]
   \<and> inputValue (handleSendMessage (init\<lparr> isOpen := True, inputValue := js '' hi'' \<rparr>)) = []"
proof -
  have h: "trim (inputValue (init\<lparr> isOpen := True, inputValue := js '' hi'' \<rparr>)) \<noteq> []"
    by (simp add: trim_nonblank)
  from submit_appends_draft_verbatim [OF h] h typed_open [of "js '' hi''"] show ?thesis
    by (simp add: init_def)
qed

text \<open>
  C3 as stated fails: the draft \<open>" hi"\<close> trims to \<open>"hi"\<close>, yet the user turn and the
  question both carry \<open>" hi"\<close> with its leading space.
\<close>

theorem untrimmed_draft_counterexample:
  "trim (js '' hi'') = js ''hi''
   \<and> js '' hi'' \<noteq> js ''hi''
   \<and> run (Mounted init) [Toggle, Change (js '' hi''), Send]
       = Mounted \<lparr> isOpen = True,
           messages = [\<lparr> text = Value (JStr greeting_text), sender = Bot \<rparr>,
                       \<lparr> text = Value (JStr (js '' hi'')), sender = User \<rparr>],
           inputValue = [], isLoading = True,
           issued = [Post chat_url (Value (JStr (js '' hi'')))], pending = [0] \<rparr>"
  by (simp add: submitted_open trim_nonblank trim_examples js_nonempty)

text \<open>
  C4. Scenario A: from a fresh widget the user opens the panel, enters
  \<open>"Who is the CEO?"\<close> and submits; the request settles with a response, of any status,
  whose body is an object with \<open>answer\<close> field \<open>"Unmesh Mehta is the CEO."\<close> The widget
  is still mounted and its conversation is exactly the greeting, the user turn and the
  bot turn with that answer.
\<close>

theorem scenario_A:
  assumes "map_of props (js ''answer'') = Some (JStr (js ''Unmesh Mehta is the CEO.''))"
  shows "conversation (run (Mounted init) [Toggle, Change (js ''Who is the CEO?''), Send,
                             Settle 0 (Responded status (Parsed (JObj props)))])
         = Some [\<lparr> text = Value (JStr greeting_text), sender = Bot \<rparr>,
                 \<lparr> text = Value (JStr (js ''Who is the CEO?'')), sender = User \<rparr>,
                 \<lparr> text = Value (JStr (js ''Unmesh Mehta is the CEO.'')), sender = Bot \<rparr>]"
proof -
  let ?out = "Responded status (Parsed (JObj props))"
  let ?evs = "[Toggle, Change (js ''Who is the CEO?''), Send]"
  have "run (Mounted init) (?evs @ [Settle 0 ?out])
          = step (run (Mounted init) ?evs) (Settle 0 ?out)"
    by (rule run_snoc)
  moreover have "try_block ?out = Inr (JObj props)"
    "get_answer (JObj props) = Inr (Value (JStr (js ''Unmesh Mehta is the CEO.'')))"
    using assms by (simp_all add: try_block_cases)
  ultimately show ?thesis
    by (simp add: resolve_answer submitted_open trim_nonblank renders_def)
qed

theorem scenario_A_witness:
  "map_of [(js ''answer'', JStr (js ''Unmesh Mehta is the CEO.''))] (js ''answer'')
     = Some (JStr (js ''Unmesh Mehta is the CEO.''))
   \<and> conversation (run (Mounted init) [Toggle, Change (js ''Who is the CEO?''), Send,
        Settle 0 (Responded 200
          (Parsed (JObj [(js ''answer'', JStr (js ''Unmesh Mehta is the CEO.''))])))])
       = Some [\<lparr> text = Value (JStr greeting_text), sender = Bot \<rparr>,
               \<lparr> text = Value (JStr (js ''Who is the CEO?'')), sender = User \<rparr>,
               \<lparr> text = Value (JStr (js ''Unmesh Mehta is the CEO.'')), sender = Bot \<rparr>]"
proof -
  have h: "map_of [(js ''answer'', JStr (js ''Unmesh Mehta is the CEO.''))] (js ''answer'')
             = Some (JStr (js ''Unmesh Mehta is the CEO.''))"
    by simp
  from scenario_A [OF h, of 200] h show ?thesis
    by blast
qed

text \<open>
  C5, as the code has it. Append-only while mounted: along every sequence of events,
  if the widget is mounted at an earlier and at a later point, the later conversation
  is at least as long as the earlier one and begins with it unchanged.
\<close>

theorem turns_append_only:
  assumes "run p evs = Mounted s" and "run p (evs @ evs') = Mounted s'"
  shows "length (messages s) \<le> length (messages s')
         \<and> take (length (messages s)) (messages s') = messages s"
proof -
  from assms have "run (Mounted s) evs' = Mounted s'"
    by (simp add: run_append)
  then obtain ys where "messages s' = messages s @ ys"
    using run_Mounted by blast
  then show ?thesis
    by simp
qed

theorem turns_append_only_witness:
  "run (Mounted init) [Toggle, Change (js ''a'')]
     = Mounted (init\<lparr> isOpen := True, inputValue := js ''a'' \<rparr>)
   \<and> run (Mounted init) ([Toggle, Change (js ''a'')] @ [Send])
     = Mounted \<lparr> isOpen = True,
         messages = [\<lparr> text = Value (JStr greeting_text), sender = Bot \<rparr>,
                     \<lparr> text = Value (JStr (js ''a'')), sender = User \<rparr>],
         inputValue = [], isLoading = True,
         issued = [Post chat_url (Value (JStr (js ''a'')))], pending = [0] \<rparr>
   \<and> messages (init\<lparr> isOpen := True, inputValue := js ''a'' \<rparr>)
     = [\<lparr> text = Value (JStr greeting_text), sender = Bot \<rparr>]
   \<and> take (length (messages (init\<lparr> isOpen := True, inputValue := js ''a'' \<rparr>)))
         [\<lparr> text = Value (JStr greeting_text), sender = Bot \<rparr>,
          \<lparr> text = Value (JStr (js ''a'')), sender = User \<rparr>]
     = messages (init\<lparr> isOpen := True, inputValue := js ''a'' \<rparr>)"
proof -
  have h1: "run (Mounted init) [Toggle, Change (js ''a'')]
     = Mounted (init\<lparr> isOpen := True, inputValue := js ''a'' \<rparr>)"
    by (rule typed_open)
  have h2: "run (Mounted init) ([Toggle, Change (js ''a'')] @ [Send])
     = Mounted \<lparr> isOpen = True,
         messages = [\<lparr> text = Value (JStr greeting_text), sender = Bot \<rparr>,
                     \<lparr> text = Value (JStr (js ''a'')), sender = User \<rparr>],
         inputValue = [], isLoading = True,
         issued = [Post chat_url (Value (JStr (js ''a'')))], pending = [0] \<rparr>"
    using submitted_open [OF trim_nonblank(3)] by simp
  have m: "messages (init\<lparr> isOpen := True, inputValue := js ''a'' \<rparr>)
     = [\<lparr> text = Value (JStr greeting_text), sender = Bot \<rparr>]"
    by (simp add: init_def)
  from turns_append_only [OF h1 h2]
  have t: "take (length (messages (init\<lparr> isOpen := True, inputValue := js ''a'' \<rparr>)))
         [\<lparr> text = Value (JStr greeting_text), sender = Bot \<rparr>,
          \<lparr> text = Value (JStr (js ''a'')), sender = User \<rparr>]
     = messages (init\<lparr> isOpen := True, inputValue := js ''a'' \<rparr>)"
    by simp
  from h1 h2 m t show ?thesis
    by (intro conjI)
qed

text \<open>
  C5 as stated fails: the widget never checks what kind of value \<open>answer\<close> is. When a
  request settles with an \<open>answer\<close> that is a JSON object while the panel is open,
  rendering the new turn throws, React removes the tree, and the two turns of the
  conversation are gone.
\<close>

theorem object_answer_unmounts_counterexample:
  "conversation (run (Mounted init) [Toggle, Change (js ''hi''), Send])
     = Some [\<lparr> text = Value (JStr greeting_text), sender = Bot \<rparr>,
             \<lparr> text = Value (JStr (js ''hi'')), sender = User \<rparr>]
   \<and> conversation (run (Mounted init) [Toggle, Change (js ''hi''), Send,
         Settle 0 (Responded 200 (Parsed (JObj
           [(js ''answer'', JObj [(js ''text'', JStr (js ''hello''))])])))])
     = None"
proof -
  let ?a = "JObj [(js ''text'', JStr (js ''hello''))]"
  let ?data = "JObj [(js ''answer'', ?a)]"
  let ?out = "Responded 200 (Parsed ?data)"
  let ?evs = "[Toggle, Change (js ''hi''), Send]"
  have "run (Mounted init) (?evs @ [Settle 0 ?out])
          = step (run (Mounted init) ?evs) (Settle 0 ?out)"
    by (rule run_snoc)
  moreover have "try_block ?out = Inr ?data" "get_answer ?data = Inr (Value ?a)"
    by (simp_all add: try_block_cases)
  ultimately show ?thesis
    by (simp add: submitted_open trim_nonblank resolve_unrenderable_open)
qed

text \<open>
  C6, as the code has it. Greeting invariant: the first turn of a fresh conversation
  is a bot turn with the fixed greeting, and it is still the first turn after every
  sequence of events that leaves the widget mounted.
\<close>

theorem greeting_stays_first:
  assumes "run (Mounted init) evs = Mounted s"
  shows "sender (messages init ! 0) = Bot
         \<and> text (messages init ! 0) = Value (JStr greeting_text)
         \<and> greeting_text = js ''Hello! Ask me anything about SMIK.''
         \<and> messages s ! 0 = messages init ! 0"
proof -
  obtain ys where "messages s = messages init @ ys"
    using run_Mounted [OF assms] by blast
  then show ?thesis
    by (simp add: init_def greeting_text_def)
qed

theorem greeting_stays_first_witness:
  "run (Mounted init) [Toggle, Change (js ''b''), Send]
     = Mounted \<lparr> isOpen = True,
         messages = [\<lparr> text = Value (JStr greeting_text), sender = Bot \<rparr>,
                     \<lparr> text = Value (JStr (js ''b'')), sender = User \<rparr>],
         inputValue = [], isLoading = True,
         issued = [Post chat_url (Value (JStr (js ''b'')))], pending = [0] \<rparr>
   \<and> [\<lparr> text = Value (JStr greeting_text), sender = Bot \<rparr>,
       \<lparr> text = Value (JStr (js ''b'')), sender = User \<rparr>] ! 0
     = \<lparr> text = Value (JStr greeting_text), sender = Bot \<rparr>
   \<and> messages init ! 0 = \<lparr> text = Value (JStr greeting_text), sender = Bot \<rparr>"
proof -
  have h: "run (Mounted init) [Toggle, Change (js ''b''), Send]
     = Mounted \<lparr> isOpen = True,
         messages = [\<lparr> text = Value (JStr greeting_text), sender = Bot \<rparr>,
                     \<lparr> text = Value (JStr (js ''b'')), sender = User \<rparr>],
         inputValue = [], isLoading = True,
         issued = [Post chat_url (Value (JStr (js ''b'')))], pending = [0] \<rparr>"
    by (rule submitted_open) (rule trim_nonblank)
  from greeting_stays_first [OF h] h show ?thesis
    by (simp add: init_def)
qed

text \<open>
  C6 as stated fails: after a settlement whose \<open>answer\<close> is the empty JSON object,
  with the panel open, the tree is removed and no greeting is left at any index.
\<close>

theorem greeting_lost_counterexample:
  "conversation (run (Mounted init) [Toggle, Change (js ''a''), Send,
         Settle 0 (Responded 200 (Parsed (JObj [(js ''answer'', JObj [])])))])
     = None
   \<and> run (Mounted init) [Toggle, Change (js ''a''), Send,
         Settle 0 (Responded 200 (Parsed (JObj [(js ''answer'', JObj [])])))]
     = Unmounted [Post chat_url (Value (JStr (js ''a'')))] []"
proof -
  let ?data = "JObj [(js ''answer'', JObj [])]"
  let ?out = "Responded 200 (Parsed ?data)"
  let ?evs = "[Toggle, Change (js ''a''), Send]"
  have "run (Mounted init) (?evs @ [Settle 0 ?out])
          = step (run (Mounted init) ?evs) (Settle 0 ?out)"
    by (rule run_snoc)
  moreover have "try_block ?out = Inr ?data" "get_answer ?data = Inr (Value (JObj []))"
    by (simp_all add: try_block_cases)
  ultimately show ?thesis
    by (simp add: submitted_open trim_nonblank resolve_unrenderable_open)
qed

text \<open>
  C7, as the code has it. From every state the widget can reach, a submission of a
  non-blank draft \<open>Q\<close> appends the user turn with text \<open>Q\<close> in the same step that
  dispatches its request, under a fresh name, and the widget stays mounted. Whenever
  that request, still in flight after any further events, settles and leaves the
  widget mounted, it has appended one bot turn at the end, at an index strictly
  greater than the index of the user turn, which still holds the user turn.
\<close>

theorem user_turn_precedes_reply:
  assumes "run (Mounted init) evs0 = Mounted s"
    and "trim (inputValue s) \<noteq> []"
    and "run (Mounted (handleSendMessage s)) evs = Mounted s2"
    and "length (issued s) \<in> set (pending s2)"
    and "resolve (length (issued s)) out s2 = Mounted s3"
  shows "length (issued s) \<notin> set (pending s)
         \<and> rerender s (handleSendMessage s) = Mounted (handleSendMessage s)
         \<and> issued (handleSendMessage s) ! length (issued s)
             = Post chat_url (Value (JStr (inputValue s)))
         \<and> messages (handleSendMessage s) ! length (messages s)
             = \<lparr> text = Value (JStr (inputValue s)), sender = User \<rparr>
         \<and> length (messages s) < length (messages s2)
         \<and> (\<exists>b. sender b = Bot \<and> messages s3 = messages s2 @ [b])
         \<and> messages s3 ! length (messages s)
             = \<lparr> text = Value (JStr (inputValue s)), sender = User \<rparr>"
proof -
  let ?u = "\<lparr> text = Value (JStr (inputValue s)), sender = User \<rparr>"
  have fresh: "length (issued s) \<notin> set (pending s)"
    by (rule fresh_request_id [OF assms(1)])
  have "renders (handleSendMessage s)"
    by (rule renders_handleSendMessage [OF reachable_renders [OF assms(1)]])
  then have shown: "rerender s (handleSendMessage s) = Mounted (handleSendMessage s)"
    by (rule rerender_renders)
  have sent: "issued (handleSendMessage s) ! length (issued s)
                = Post chat_url (Value (JStr (inputValue s)))"
    by (simp add: handleSendMessage_issued [OF assms(2)])
  have m1: "messages (handleSendMessage s) = messages s @ [?u]"
    by (rule handleSendMessage_messages [OF assms(2)])
  obtain ys where "messages s2 = messages (handleSendMessage s) @ ys"
    using run_Mounted [OF assms(3)] by blast
  with m1 have m2: "messages s2 = messages s @ ?u # ys"
    by simp
  obtain b where b: "sender b = Bot" "messages s3 = messages s2 @ [b]"
    using resolve_messages [OF assms(4,5)] by blast
  have "messages s3 ! length (messages s) = ?u"
    using b(2) m2 by (simp add: nth_append)
  moreover have "messages (handleSendMessage s) ! length (messages s) = ?u"
    using m1 by simp
  moreover have "length (messages s) < length (messages s2)"
    using m2 by simp
  ultimately show ?thesis
    using fresh shown sent b by blast
qed

theorem user_turn_precedes_reply_witness:
  "run (Mounted init) [Toggle, Change (js ''hi'')]
     = Mounted (init\<lparr> isOpen := True, inputValue := js ''hi'' \<rparr>)
   \<and> trim (inputValue (init\<lparr> isOpen := True, inputValue := js ''hi'' \<rparr>)) \<noteq> []
   \<and> run (Mounted (handleSendMessage (init\<lparr> isOpen := True, inputValue := js ''hi'' \<rparr>))) [Toggle]
     = Mounted (toggleChat (handleSendMessage (init\<lparr> isOpen := True, inputValue := js ''hi'' \<rparr>)))
   \<and> resolve 0 Rejected
         (toggleChat (handleSendMessage (init\<lparr> isOpen := True, inputValue := js ''hi'' \<rparr>)))
     = Mounted \<lparr> isOpen = False,
         messages = [\<lparr> text = Value (JStr greeting_text), sender = Bot \<rparr>,
                     \<lparr> text = Value (JStr (js ''hi'')), sender = User \<rparr>,
                     \<lparr> text = Value (JStr fallback_text), sender = Bot \<rparr>],
         inputValue = [], isLoading = False,
         issued = [Post chat_url (Value (JStr (js ''hi''))), Get health_url],
         pending = [] \<rparr>
   \<and> messages \<lparr> isOpen = False,
         messages = [\<lparr> text = Value (JStr greeting_text), sender = Bot \<rparr>,
                     \<lparr> text = Value (JStr (js ''hi'')), sender = User \<rparr>,
                     \<lparr> text = Value (JStr fallback_text), sender = Bot \<rparr>],
         inputValue = [], isLoading = False,
         issued = [Post chat_url (Value (JStr (js ''hi''))), Get health_url],
         pending = [] \<rparr> ! length (messages (init\<lparr> isOpen := True, inputValue := js ''hi'' \<rparr>))
     = \<lparr> text = Value (JStr (js ''hi'')), sender = User \<rparr>"
proof -
  let ?s = "init\<lparr> isOpen := True, inputValue := js ''hi'' \<rparr>"
  let ?s2 = "toggleChat (handleSendMessage ?s)"
  let ?s3 = "\<lparr> isOpen = False,
         messages = [\<lparr> text = Value (JStr greeting_text), sender = Bot \<rparr>,
                     \<lparr> text = Value (JStr (js ''hi'')), sender = User \<rparr>,
                     \<lparr> text = Value (JStr fallback_text), sender = Bot \<rparr>],
         inputValue = [], isLoading = False,
         issued = [Post chat_url (Value (JStr (js ''hi''))), Get health_url],
         pending = [] \<rparr>"
  have h1: "run (Mounted init) [Toggle, Change (js ''hi'')] = Mounted ?s"
    by (rule typed_open)
  have h2: "trim (inputValue ?s) \<noteq> []"
    by (simp add: trim_nonblank)
  have h3: "run (Mounted (handleSendMessage ?s)) [Toggle] = Mounted ?s2"
    using trim_nonblank(1)
    by (simp add: run_Cons run_Nil rerender_def commit_def renders_def toggleChat_def
        handleSendMessage_def init_def)
  have h4: "length (issued ?s) \<in> set (pending ?s2)"
    using trim_nonblank(1) by (simp add: toggleChat_def handleSendMessage_def init_def)
  have h5: "resolve (length (issued ?s)) Rejected ?s2 = Mounted ?s3"
    using trim_nonblank(1)
    by (simp add: resolve_def resume_def try_block_cases commit_def renders_def
        toggleChat_def handleSendMessage_def init_def)
  have z: "length (issued ?s) = 0"
    by (simp add: init_def)
  from user_turn_precedes_reply [OF h1 h2 h3 h4 h5]
  have c: "messages ?s3 ! length (messages ?s)
             = \<lparr> text = Value (JStr (js ''hi'')), sender = User \<rparr>"
    by simp
  from h1 h2 h3 h5 [unfolded z] c show ?thesis
    by (intro conjI)
qed

text \<open>
  C7 as stated fails: a submission need not produce a bot turn. The question is
  submitted and its user turn is at index 1; the request settles with an \<open>answer\<close> that
  is a JSON object while the panel is open; the tree is removed, so there is neither
  a bot turn after the user turn nor a conversation holding the user turn.
\<close>

theorem object_answer_no_reply_counterexample:
  "run (Mounted init) [Toggle, Change (js ''Who is the CEO?''), Send]
     = Mounted \<lparr> isOpen = True,
         messages = [\<lparr> text = Value (JStr greeting_text), sender = Bot \<rparr>,
                     \<lparr> text = Value (JStr (js ''Who is the CEO?'')), sender = User \<rparr>],
         inputValue = [], isLoading = True,
         issued = [Post chat_url (Value (JStr (js ''Who is the CEO?'')))], pending = [0] \<rparr>
   \<and> run (Mounted init) [Toggle, Change (js ''Who is the CEO?''), Send,
         Settle 0 (Responded 200 (Parsed (JObj
           [(js ''answer'', JObj [(js ''name'', JStr (js ''Unmesh Mehta''))])])))]
     = Unmounted [Post chat_url (Value (JStr (js ''Who is the CEO?'')))] []
   \<and> conversation (run (Mounted init) [Toggle, Change (js ''Who is the CEO?''), Send,
         Settle 0 (Responded 200 (Parsed (JObj
           [(js ''answer'', JObj [(js ''name'', JStr (js ''Unmesh Mehta''))])])))])
     = None"
proof -
  let ?a = "JObj [(js ''name'', JStr (js ''Unmesh Mehta''))]"
  let ?data = "JObj [(js ''answer'', ?a)]"
  let ?out = "Responded 200 (Parsed ?data)"
  let ?evs = "[Toggle, Change (js ''Who is the CEO?''), Send]"
  have "run (Mounted init) (?evs @ [Settle 0 ?out])
          = step (run (Mounted init) ?evs) (Settle 0 ?out)"
    by (rule run_snoc)
  moreover have "try_block ?out = Inr ?data" "get_answer ?data = Inr (Value ?a)"
    by (simp_all add: try_block_cases)
  ultimately show ?thesis
    by (simp add: submitted_open trim_nonblank resolve_unrenderable_open)
qed

text \<open>
  C8. Submitting a draft that is empty or consists only of white space does nothing:
  the whole state, and with it the turns, the loading flag, the draft and the list of
  dispatched requests, is unchanged, whether the submission comes from the Send
  button or from the Enter key.
\<close>

theorem blank_submit_noop:
  assumes "list_all is_ws (inputValue s)"
  shows "handleSendMessage s = s
         \<and> step (Mounted s) Send = Mounted s
         \<and> step (Mounted s) (KeyPress (js ''Enter'')) = Mounted s"
  using assms
  by (simp add: handleSendMessage_blank trim_blank handleKeyPress_def rerender_def)

theorem blank_submit_noop_witness:
  "run (Mounted init) [Toggle, Change (js ''   '')]
     = Mounted (init\<lparr> isOpen := True, inputValue := js ''   '' \<rparr>)
   \<and> list_all is_ws (inputValue (init\<lparr> isOpen := True, inputValue := js ''   '' \<rparr>))
   \<and> handleSendMessage (init\<lparr> isOpen := True, inputValue := js ''   '' \<rparr>)
       = init\<lparr> isOpen := True, inputValue := js ''   '' \<rparr>
   \<and> step (Mounted (init\<lparr> isOpen := True, inputValue := js ''   '' \<rparr>)) Send
       = Mounted (init\<lparr> isOpen := True, inputValue := js ''   '' \<rparr>)"
proof -
  have ws: "list_all is_ws (inputValue (init\<lparr> isOpen := True, inputValue := js ''   '' \<rparr>))"
    by (simp add: js_def is_ws_def)
  from blank_submit_noop [OF ws]
  have a: "handleSendMessage (init\<lparr> isOpen := True, inputValue := js ''   '' \<rparr>)
             = init\<lparr> isOpen := True, inputValue := js ''   '' \<rparr>"
    and b: "step (Mounted (init\<lparr> isOpen := True, inputValue := js ''   '' \<rparr>)) Send
             = Mounted (init\<lparr> isOpen := True, inputValue := js ''   '' \<rparr>)"
    by blast+
  from typed_open [of "js ''   ''"] ws a b show ?thesis
    by (intro conjI)
qed

text \<open>
  C9, as the code has it. With the panel open and a request in flight, a toggle only
  hides the panel: the widget stays mounted, and turns, draft, loading flag and the
  requests in flight are untouched. Whenever settling the request with the panel open
  leaves the widget mounted, settling it after the toggle gives the same state but
  for the visibility, the same bot turn appended to the same conversation.
\<close>

theorem toggle_independent:
  assumes "isOpen s" and "rid \<in> set (pending s)" and "resolve rid out s = Mounted t"
  shows "step (Mounted s) Toggle = Mounted (toggleChat s)
         \<and> \<not> isOpen (toggleChat s)
         \<and> messages (toggleChat s) = messages s
         \<and> inputValue (toggleChat s) = inputValue s
         \<and> isLoading (toggleChat s) = isLoading s
         \<and> issued (toggleChat s) = issued s
         \<and> pending (toggleChat s) = pending s
         \<and> resolve rid out (toggleChat s) = Mounted (toggleChat t)
         \<and> messages (toggleChat t) = messages t
         \<and> (\<exists>b. sender b = Bot \<and> messages t = messages s @ [b])"
proof -
  have closed: "\<not> isOpen (toggleChat s)"
    using assms(1) by (simp add: toggleChat_def)
  then have "rerender s (toggleChat s) = Mounted (toggleChat s)"
    by (intro rerender_renders renders_closed)
  then have toggle: "step (Mounted s) Toggle = Mounted (toggleChat s)"
    by simp
  have later: "resolve rid out (toggleChat s) = Mounted (toggleChat t)"
  proof (cases "try_block out")
    case (Inl e)
    with assms show ?thesis
      by (auto simp: resolve_def resume_def commit_def renders_def toggleChat_def
          split: if_splits)
  next
    case (Inr data)
    with assms show ?thesis
      by (cases "get_answer data")
         (auto simp: resolve_def resume_def add_answer_def commit_def renders_def
            toggleChat_def split: if_splits)
  qed
  from resolve_messages [OF assms(2,3)] closed toggle later show ?thesis
    by (simp add: toggleChat_def)
qed

theorem toggle_independent_witness:
  "run (Mounted init) [Toggle, Change (js ''hi''), Send]
     = Mounted \<lparr> isOpen = True,
         messages = [\<lparr> text = Value (JStr greeting_text), sender = Bot \<rparr>,
                     \<lparr> text = Value (JStr (js ''hi'')), sender = User \<rparr>],
         inputValue = [], isLoading = True,
         issued = [Post chat_url (Value (JStr (js ''hi'')))], pending = [0] \<rparr>
   \<and> resolve 0 (Responded 200 (Parsed (JObj [(js ''answer'', JStr (js ''hello''))])))
         (toggleChat \<lparr> isOpen = True,
           messages = [\<lparr> text = Value (JStr greeting_text), sender = Bot \<rparr>,
                       \<lparr> text = Value (JStr (js ''hi'')), sender = User \<rparr>],
           inputValue = [], isLoading = True,
           issued = [Post chat_url (Value (JStr (js ''hi'')))], pending = [0] \<rparr>)
     = Mounted \<lparr> isOpen = False,
         messages = [\<lparr> text = Value (JStr greeting_text), sender = Bot \<rparr>,
                     \<lparr> text = Value (JStr (js ''hi'')), sender = User \<rparr>,
                     \<lparr> text = Value (JStr (js ''hello'')), sender = Bot \<rparr>],
         inputValue = [], isLoading = False,
         issued = [Post chat_url (Value (JStr (js ''hi'')))], pending = [] \<rparr>"
proof -
  let ?s = "\<lparr> isOpen = True,
           messages = [\<lparr> text = Value (JStr greeting_text), sender = Bot \<rparr>,
                       \<lparr> text = Value (JStr (js ''hi'')), sender = User \<rparr>],
           inputValue = [], isLoading = True,
           issued = [Post chat_url (Value (JStr (js ''hi'')))], pending = [0] \<rparr>"
  let ?t = "\<lparr> isOpen = True,
           messages = [\<lparr> text = Value (JStr greeting_text), sender = Bot \<rparr>,
                       \<lparr> text = Value (JStr (js ''hi'')), sender = User \<rparr>,
                       \<lparr> text = Value (JStr (js ''hello'')), sender = Bot \<rparr>],
           inputValue = [], isLoading = False,
           issued = [Post chat_url (Value (JStr (js ''hi'')))], pending = [] \<rparr>"
  let ?out = "Responded 200 (Parsed (JObj [(js ''answer'', JStr (js ''hello''))]))"
  have r: "run (Mounted init) [Toggle, Change (js ''hi''), Send] = Mounted ?s"
    by (rule submitted_open) (rule trim_nonblank)
  have h1: "isOpen ?s" and h2: "0 \<in> set (pending ?s)"
    by simp_all
  have h3: "resolve 0 ?out ?s = Mounted ?t"
    by (simp add: resolve_def resume_def add_answer_def try_block_cases commit_def renders_def)
  from toggle_independent [OF h1 h2 h3] r show ?thesis
    by (simp add: toggleChat_def)
qed

text \<open>
  C9 as stated fails: the toggle can alter the effect of the request. With an
  \<open>answer\<close> that is a JSON object, settling with the panel open removes the tree,
  while settling after the panel has been closed stores the bot turn.
\<close>

theorem toggle_changes_outcome_counterexample:
  "run (Mounted init) [Toggle, Change (js ''hi''), Send,
         Settle 0 (Responded 200 (Parsed (JObj
           [(js ''answer'', JObj [(js ''summary'', JStr (js ''hello''))])])))]
     = Unmounted [Post chat_url (Value (JStr (js ''hi'')))] []
   \<and> run (Mounted init) [Toggle, Change (js ''hi''), Send, Toggle,
         Settle 0 (Responded 200 (Parsed (JObj
           [(js ''answer'', JObj [(js ''summary'', JStr (js ''hello''))])])))]
     = Mounted \<lparr> isOpen = False,
         messages = [\<lparr> text = Value (JStr greeting_text), sender = Bot \<rparr>,
                     \<lparr> text = Value (JStr (js ''hi'')), sender = User \<rparr>,
                     \<lparr> text = Value (JObj [(js ''summary'', JStr (js ''hello''))]),
                       sender = Bot \<rparr>],
         inputValue = [], isLoading = False,
         issued = [Post chat_url (Value (JStr (js ''hi'')))], pending = [] \<rparr>"
proof -
  let ?a = "JObj [(js ''summary'', JStr (js ''hello''))]"
  let ?data = "JObj [(js ''answer'', ?a)]"
  let ?out = "Responded 200 (Parsed ?data)"
  have "run (Mounted init) ([Toggle, Change (js ''hi''), Send] @ [Settle 0 ?out])
          = step (run (Mounted init) [Toggle, Change (js ''hi''), Send]) (Settle 0 ?out)"
       "run (Mounted init) ([Toggle, Change (js ''hi''), Send, Toggle] @ [Settle 0 ?out])
          = step (run (Mounted init) [Toggle, Change (js ''hi''), Send, Toggle]) (Settle 0 ?out)"
    by (rule run_snoc)+
  moreover have "try_block ?out = Inr ?data" "get_answer ?data = Inr (Value ?a)"
    by (simp_all add: try_block_cases)
  ultimately show ?thesis
    by (simp add: submitted_open awaiting_then_closed trim_nonblank
        resolve_unrenderable_open resolve_answer_closed)
qed

text \<open>
  C10. For a draft that is not blank, the \<open>question\<close> of the request just dispatched is
  the text of the user turn just appended, which is the draft as it was before it was
  cleared.
\<close>

theorem question_is_user_turn_text:
  assumes "trim (inputValue s) \<noteq> []"
  shows "last (issued (handleSendMessage s)) = Post chat_url (text (last (messages (handleSendMessage s))))
         \<and> sender (last (messages (handleSendMessage s))) = User
         \<and> text (last (messages (handleSendMessage s))) = Value (JStr (inputValue s))
         \<and> inputValue (handleSendMessage s) = []"
  using assms
  by (simp add: handleSendMessage_messages handleSendMessage_issued handleSendMessage_flags)

theorem question_is_user_turn_text_witness:
  "run (Mounted init) [Toggle, Change (js ''Who is the CEO?'')]
     = Mounted (init\<lparr> isOpen := True, inputValue := js ''Who is the CEO?'' \<rparr>)
   \<and> trim (inputValue (init\<lparr> isOpen := True, inputValue := js ''Who is the CEO?'' \<rparr>)) \<noteq> []
   \<and> last (issued (handleSendMessage (init\<lparr> isOpen := True, inputValue := js ''Who is the CEO?'' \<rparr>)))
       = Post chat_url (Value (JStr (js ''Who is the CEO?'')))
   \<and> text (last (messages (handleSendMessage
         (init\<lparr> isOpen := True, inputValue := js ''Who is the CEO?'' \<rparr>))))
       = Value (JStr (js ''Who is the CEO?''))
   \<and> inputValue (handleSendMessage (init\<lparr> isOpen := True, inputValue := js ''Who is the CEO?'' \<rparr>))
       = []"
proof -
  have h: "trim (inputValue (init\<lparr> isOpen := True, inputValue := js ''Who is the CEO?'' \<rparr>)) \<noteq> []"
    by (simp add: trim_nonblank)
  from question_is_user_turn_text [OF h] h typed_open [of "js ''Who is the CEO?''"]
  show ?thesis
    by simp
qed

end
